theory Spec2Isabelle
  imports Main "HOL-Library.Multiset"
begin

section \<open>The PSGC importer and hierarchy resolver\<close>

text \<open>
  The repository keeps the Philippine Standard Geographic Code hierarchy in a labelled
  property graph. \<^verbatim>\<open>tasks/import_psgc_data_to_neo4j.ts\<close> reads flat records, creates one
  node per record and kind, and derives the parent edges from the code segments with five
  Cypher statements; the route \<^verbatim>\<open>/api/hierarchy/[psgc_code]\<close> resolves a code to its chain of
  ancestors with one Cypher query. The store is modelled as a list of nodes and a list of
  edges; a node's identity is its position in the list, which is stable because the only
  deletion the code performs is \<^verbatim>\<open>clearDatabase\<close>, which empties the store.
\<close>

subsection \<open>Records of the input file (\<^verbatim>\<open>src/types.ts\<close>, interface PSGCData)\<close>

record PSGCData =
  psgc_code :: string
  name :: string
  correspondence_code :: string
  geographic_level :: string
  old_names :: "string option"
  city_class :: "string option"
  income_classification :: "string option"
  urban_rural :: "string option"
  population_2020 :: "int option"
  status :: "string option"
  region_code :: string
  province_code :: string
  municipality_code :: string
  barangay_code :: string
  admin_level :: string
  is_region :: bool
  is_province :: bool
  is_city_municipality :: bool
  is_barangay :: bool
  is_submunicipality :: bool

subsection \<open>JavaScript objects and property values\<close>

datatype json = JNull | JBool bool | JNum int | JStr string

type_synonym obj = "(string \<times> json) list"

fun nullable_str :: "string option \<Rightarrow> json" where
  "nullable_str None = JNull"
| "nullable_str (Some s) = JStr s"

fun nullable_num :: "int option \<Rightarrow> json" where
  "nullable_num None = JNull"
| "nullable_num (Some n) = JNum n"

text \<open>A parsed record as the object \<^verbatim>\<open>item[prop]\<close> indexes: one key per field of the interface.\<close>

definition obj_of :: "PSGCData \<Rightarrow> obj" where
  "obj_of d =
    [(''psgc_code'', JStr (psgc_code d)),
     (''name'', JStr (name d)),
     (''correspondence_code'', JStr (correspondence_code d)),
     (''geographic_level'', JStr (geographic_level d)),
     (''old_names'', nullable_str (old_names d)),
     (''city_class'', nullable_str (city_class d)),
     (''income_classification'', nullable_str (income_classification d)),
     (''urban_rural'', nullable_str (urban_rural d)),
     (''population_2020'', nullable_num (population_2020 d)),
     (''status'', nullable_str (status d)),
     (''region_code'', JStr (region_code d)),
     (''province_code'', JStr (province_code d)),
     (''municipality_code'', JStr (municipality_code d)),
     (''barangay_code'', JStr (barangay_code d)),
     (''admin_level'', JStr (admin_level d)),
     (''is_region'', JBool (is_region d)),
     (''is_province'', JBool (is_province d)),
     (''is_city_municipality'', JBool (is_city_municipality d)),
     (''is_barangay'', JBool (is_barangay d)),
     (''is_submunicipality'', JBool (is_submunicipality d))]"

subsection \<open>The graph store\<close>

datatype label = Region | Province | CityMunicipality | Barangay | SubMunicipality

datatype rel = HAS_PROVINCE | HAS_CITY_MUNICIPALITY | HAS_BARANGAY | HAS_SUBMUNICIPALITY

record node =
  n_label :: label
  n_props :: obj

type_synonym edge = "nat \<times> rel \<times> nat"

record graph =
  g_nodes :: "node list"
  g_edges :: "edge list"

definition empty_graph :: graph where
  "empty_graph = \<lparr>g_nodes = [], g_edges = []\<rparr>"

text \<open>
  Cypher property access \<^verbatim>\<open>n.key\<close>: \<open>None\<close> is Cypher's null (the property is absent).
  A comparison with null is null, and a \<^verbatim>\<open>WHERE\<close> whose conjunction contains a null
  conjunct drops the row, so inside the conjunctive \<^verbatim>\<open>WHERE\<close> clauses of this code
  \<^verbatim>\<open>a = b\<close> and \<^verbatim>\<open>a <> b\<close> hold only when both sides are present.
\<close>

definition property :: "node \<Rightarrow> string \<Rightarrow> json option" where
  "property n k = (case map_of (n_props n) k of Some JNull \<Rightarrow> None | r \<Rightarrow> r)"

definition cy_eq :: "json option \<Rightarrow> json option \<Rightarrow> bool" where
  "cy_eq a b = (case (a, b) of (Some x, Some y) \<Rightarrow> x = y | _ \<Rightarrow> False)"

definition cy_ne :: "json option \<Rightarrow> json option \<Rightarrow> bool" where
  "cy_ne a b = (case (a, b) of (Some x, Some y) \<Rightarrow> x \<noteq> y | _ \<Rightarrow> False)"

definition lit :: "string \<Rightarrow> json option" where
  "lit s = Some (JStr s)"

text \<open>\<^verbatim>\<open>MATCH (n:L)\<close>: the nodes carrying label \<open>L\<close>.\<close>

definition match_label :: "node list \<Rightarrow> label \<Rightarrow> nat list" where
  "match_label ns L = [i \<leftarrow> [0..<length ns]. n_label (ns ! i) = L]"

text \<open>
  \<^verbatim>\<open>MATCH (a:La) MATCH (b:Lb) WHERE w CREATE (a)-[:T]->(b)\<close>: one new edge per row of the
  product that passes the filter. \<^verbatim>\<open>CREATE\<close> is unconditional: it never looks for an
  existing edge.
\<close>

definition matched_pairs :: "node list \<Rightarrow> label \<Rightarrow> label \<Rightarrow> (node \<Rightarrow> node \<Rightarrow> bool) \<Rightarrow> rel \<Rightarrow> edge list" where
  "matched_pairs ns La Lb w T =
    concat (map (\<lambda>a. map (\<lambda>b. (a, T, b)) (filter (\<lambda>b. w (ns ! a) (ns ! b)) (match_label ns Lb)))
      (match_label ns La))"

definition create_edges :: "label \<Rightarrow> label \<Rightarrow> (node \<Rightarrow> node \<Rightarrow> bool) \<Rightarrow> rel \<Rightarrow> graph \<Rightarrow> graph" where
  "create_edges La Lb w T g = g\<lparr>g_edges := g_edges g @ matched_pairs (g_nodes g) La Lb w T\<rparr>"

subsection \<open>Relationship building (\<^verbatim>\<open>createRelationships\<close>)\<close>

definition where_region_province :: "node \<Rightarrow> node \<Rightarrow> bool" where
  "where_region_province r p \<longleftrightarrow>
     cy_eq (property p ''region_code'') (property r ''region_code'')
     \<and> cy_ne (property p ''province_code'') (lit ''000'')
     \<and> cy_eq (property r ''province_code'') (lit ''000'')"

definition where_province_city :: "node \<Rightarrow> node \<Rightarrow> bool" where
  "where_province_city p c \<longleftrightarrow>
     cy_eq (property c ''region_code'') (property p ''region_code'')
     \<and> cy_eq (property c ''province_code'') (property p ''province_code'')
     \<and> cy_eq (property p ''municipality_code'') (lit ''00'')
     \<and> cy_ne (property c ''municipality_code'') (lit ''00'')"

definition where_city_barangay :: "node \<Rightarrow> node \<Rightarrow> bool" where
  "where_city_barangay c b \<longleftrightarrow>
     cy_eq (property b ''region_code'') (property c ''region_code'')
     \<and> cy_eq (property b ''province_code'') (property c ''province_code'')
     \<and> cy_eq (property b ''municipality_code'') (property c ''municipality_code'')
     \<and> cy_eq (property c ''barangay_code'') (lit ''000'')
     \<and> cy_ne (property b ''barangay_code'') (lit ''000'')"

definition where_city_submun :: "node \<Rightarrow> node \<Rightarrow> bool" where
  "where_city_submun c s \<longleftrightarrow>
     cy_eq (property s ''region_code'') (property c ''region_code'')
     \<and> cy_eq (property s ''province_code'') (property c ''province_code'')
     \<and> cy_eq (property s ''municipality_code'') (property c ''municipality_code'')"

definition where_ncr :: "node \<Rightarrow> node \<Rightarrow> bool" where
  "where_ncr r c \<longleftrightarrow>
     cy_eq (property r ''region_code'') (lit ''13'')
     \<and> cy_eq (property c ''region_code'') (lit ''13'')"

text \<open>The five statements, named after the line the code logs before each.\<close>

datatype pass = RegionProvince | ProvinceCity | CityBarangay | CitySubMun | NCR

fun run_pass :: "pass \<Rightarrow> graph \<Rightarrow> graph" where
  "run_pass RegionProvince = create_edges Region Province where_region_province HAS_PROVINCE"
| "run_pass ProvinceCity =
     create_edges Province CityMunicipality where_province_city HAS_CITY_MUNICIPALITY"
| "run_pass CityBarangay = create_edges CityMunicipality Barangay where_city_barangay HAS_BARANGAY"
| "run_pass CitySubMun =
     create_edges CityMunicipality SubMunicipality where_city_submun HAS_SUBMUNICIPALITY"
| "run_pass NCR = create_edges Region CityMunicipality where_ncr HAS_CITY_MUNICIPALITY"

definition createRelationships :: "graph \<Rightarrow> graph" where
  "createRelationships g =
     run_pass NCR (run_pass CitySubMun (run_pass CityBarangay (run_pass ProvinceCity
       (run_pass RegionProvince g))))"

text \<open>The passes run in a given order; \<open>createRelationships\<close> is the order of the source.\<close>

fun run_passes :: "pass list \<Rightarrow> graph \<Rightarrow> graph" where
  "run_passes [] g = g"
| "run_passes (p # ps) g = run_passes ps (run_pass p g)"

definition count_rel :: "rel \<Rightarrow> graph \<Rightarrow> nat" where
  "count_rel T g = length (filter (\<lambda>e. fst (snd e) = T) (g_edges g))"

subsection \<open>Entity import (\<^verbatim>\<open>importBatch\<close> and the loops of \<^verbatim>\<open>main\<close>)\<close>

definition BATCH_SIZE :: nat where
  "BATCH_SIZE = 500"

text \<open>
  The object \<^verbatim>\<open>filtered\<close> built inside \<^verbatim>\<open>importBatch\<close>: the listed properties whose
  value in the item is neither null nor undefined, in the order of the list.
\<close>

definition filtered :: "string list \<Rightarrow> obj \<Rightarrow> obj" where
  "filtered properties item =
     concat (map (\<lambda>p. case map_of item p of None \<Rightarrow> [] | Some JNull \<Rightarrow> [] | Some v \<Rightarrow> [(p, v)])
       properties)"

definition new_node :: "label \<Rightarrow> string list \<Rightarrow> obj \<Rightarrow> node" where
  "new_node nodeType properties item = \<lparr>n_label = nodeType, n_props = filtered properties item\<rparr>"

definition importBatch :: "obj list \<Rightarrow> label \<Rightarrow> string list \<Rightarrow> graph \<Rightarrow> graph" where
  "importBatch items nodeType properties g =
     (if items = [] then g
      else g\<lparr>g_nodes := g_nodes g @ map (new_node nodeType properties) items\<rparr>)"

text \<open>The console: a line is the sequence of its literal and numeric parts.\<close>

datatype log_part = S string | N nat

type_synonym log_line = "log_part list"

record world =
  db :: graph
  console :: "log_line list"

definition log :: "log_line \<Rightarrow> world \<Rightarrow> world" where
  "log l w = w\<lparr>console := console w @ [l]\<rparr>"

text \<open>
  \<^verbatim>\<open>for (let i = 0; i < items.length; i += BATCH_SIZE)\<close>: import the slice
  \<^verbatim>\<open>items.slice(i, i + BATCH_SIZE)\<close>, then log the progress line.
\<close>

function import_loop :: "string \<Rightarrow> label \<Rightarrow> string list \<Rightarrow> obj list \<Rightarrow> nat \<Rightarrow> world \<Rightarrow> world" where
  "import_loop what nodeType properties items i w =
     (if i < length items then
        import_loop what nodeType properties items (i + BATCH_SIZE)
          (log [S ''  Imported '', N (min (i + BATCH_SIZE) (length items)), S ''/'',
                N (length items), S '' '', S what]
             (w\<lparr>db := importBatch (take BATCH_SIZE (drop i items)) nodeType properties (db w)\<rparr>))
      else w)"
  by pat_completeness auto
termination
  by (relation "measure (\<lambda>(what, nodeType, properties, items, i, w). length items - i)")
     (auto simp: BATCH_SIZE_def)

declare import_loop.simps [simp del]

subsection \<open>Classification: the five filters of \<^verbatim>\<open>main\<close>\<close>

definition regions_filter :: "PSGCData \<Rightarrow> bool" where
  "regions_filter d \<longleftrightarrow> is_region d \<and> province_code d = ''000''"

definition provinces_filter :: "PSGCData \<Rightarrow> bool" where
  "provinces_filter d \<longleftrightarrow>
     is_province d \<and> province_code d \<noteq> ''000'' \<and> municipality_code d = ''00''"

definition cities_filter :: "PSGCData \<Rightarrow> bool" where
  "cities_filter d \<longleftrightarrow>
     is_city_municipality d
     \<or> (municipality_code d \<noteq> ''00'' \<and> barangay_code d = ''000'' \<and> \<not> is_submunicipality d)"

definition barangays_filter :: "PSGCData \<Rightarrow> bool" where
  "barangays_filter d \<longleftrightarrow> is_barangay d"

definition submuns_filter :: "PSGCData \<Rightarrow> bool" where
  "submuns_filter d \<longleftrightarrow> geographic_level d = ''SubMun''"

definition regionProps :: "string list" where
  "regionProps = [''psgc_code'', ''name'', ''correspondence_code'', ''geographic_level'',
     ''population_2020'', ''region_code'', ''province_code'', ''municipality_code'',
     ''barangay_code'']"

definition provinceProps :: "string list" where
  "provinceProps = [''psgc_code'', ''name'', ''correspondence_code'', ''geographic_level'',
     ''population_2020'', ''region_code'', ''province_code'', ''municipality_code'',
     ''barangay_code'']"

definition cityProps :: "string list" where
  "cityProps = [''psgc_code'', ''name'', ''correspondence_code'', ''geographic_level'',
     ''city_class'', ''income_classification'', ''population_2020'', ''region_code'',
     ''province_code'', ''municipality_code'', ''barangay_code'', ''type'']"

definition barangayProps :: "string list" where
  "barangayProps = [''psgc_code'', ''name'', ''correspondence_code'', ''geographic_level'',
     ''urban_rural'', ''population_2020'', ''region_code'', ''province_code'',
     ''municipality_code'', ''barangay_code'']"

text \<open>\<^verbatim>\<open>{...c, type: c.geographic_level === "City" ? "city" : "municipality"}\<close>\<close>

definition with_type :: "PSGCData \<Rightarrow> obj" where
  "with_type c =
     obj_of c @ [(''type'', JStr (if geographic_level c = ''City'' then ''city'' else ''municipality''))]"

text \<open>
  The kinds a record is imported under, and the node it becomes under each: the label and
  property list \<^verbatim>\<open>main\<close> passes to \<^verbatim>\<open>importBatch\<close> for the list the filter fills.
\<close>

fun accepts :: "label \<Rightarrow> PSGCData \<Rightarrow> bool" where
  "accepts Region = regions_filter"
| "accepts Province = provinces_filter"
| "accepts CityMunicipality = cities_filter"
| "accepts Barangay = barangays_filter"
| "accepts SubMunicipality = submuns_filter"

fun node_of :: "label \<Rightarrow> PSGCData \<Rightarrow> node" where
  "node_of Region d = new_node Region regionProps (obj_of d)"
| "node_of Province d = new_node Province provinceProps (obj_of d)"
| "node_of CityMunicipality d = new_node CityMunicipality cityProps (with_type d)"
| "node_of Barangay d = new_node Barangay barangayProps (obj_of d)"
| "node_of SubMunicipality d = new_node SubMunicipality barangayProps (obj_of d)"

definition kinds :: "label list" where
  "kinds = [Region, Province, CityMunicipality, Barangay, SubMunicipality]"

definition classify :: "PSGCData \<Rightarrow> label list" where
  "classify d = filter (\<lambda>K. accepts K d) kinds"

subsection \<open>Reading the input file (\<^verbatim>\<open>readJSONLFile\<close>)\<close>










subsection \<open>The import run (\<^verbatim>\<open>main\<close>)\<close>

text \<open>
  The store is taken to be reachable for the whole run. Index creation does not change the
  nodes or the edges. Console lines are kept as written, except that the check mark that
  opens the line "Import completed successfully!" is left out.
\<close>

definition clearDatabase :: "world \<Rightarrow> world" where
  "clearDatabase w =
     log [S ''Database cleared''] ((log [S ''Clearing database...''] w)\<lparr>db := empty_graph\<rparr>)"

definition createIndexes :: "world \<Rightarrow> world" where
  "createIndexes w = log [S ''Indexes created''] (log [S ''Creating indexes...''] w)"

definition createRelationships_lines :: "log_line list" where
  "createRelationships_lines =
     [[S ''Creating relationships...''],
      [S ''  Creating Region -> Province relationships...''],
      [S ''  Creating Province -> CityMunicipality relationships...''],
      [S ''  Creating CityMunicipality -> Barangay relationships...''],
      [S ''  Creating CityMunicipality -> SubMunicipality relationships...''],
      [S ''  Handling NCR special case (Region acts as Province)...''],
      [S ''Relationships created'']]"

definition createRelationships_logged :: "world \<Rightarrow> world" where
  "createRelationships_logged w =
     w\<lparr>db := createRelationships (db w), console := console w @ createRelationships_lines\<rparr>"

text \<open>
  The statistics query after the import. Each \<^verbatim>\<open>MATCH ... WITH regions, ..., count(x)\<close>
  groups by the counts carried so far, so a label without nodes leaves no row; only the
  first \<^verbatim>\<open>count\<close>, which has no grouping key, yields a row on no input.
\<close>

definition count_label :: "graph \<Rightarrow> label \<Rightarrow> nat" where
  "count_label g L = length (match_label (g_nodes g) L)"

definition count_type :: "graph \<Rightarrow> string \<Rightarrow> nat" where
  "count_type g ty =
     length (filter (\<lambda>c. cy_eq (property (g_nodes g ! c) ''type'') (lit ty))
       (match_label (g_nodes g) CityMunicipality))"

definition verify_lines :: "graph \<Rightarrow> log_line list" where
  "verify_lines g =
     (if count_label g Province = 0 \<or> count_label g CityMunicipality = 0 \<or> count_label g Barangay = 0
      then []
      else [[S (CHR 0x0A # ''Database statistics:'')],
            [S ''  Regions:'', N (count_label g Region)],
            [S ''  Provinces:'', N (count_label g Province)],
            [S ''  Cities:'', N (count_type g ''city'')],
            [S ''  Municipalities:'', N (count_type g ''municipality'')],
            [S ''  Total Cities/Municipalities:'', N (count_label g CityMunicipality)],
            [S ''  Barangays:'', N (count_label g Barangay)]])"

definition found_lines :: "PSGCData list \<Rightarrow> log_line list" where
  "found_lines data =
     [[S ''Found '', N (length (filter regions_filter data)), S '' regions''],
      [S ''Found '', N (length (filter provinces_filter data)), S '' provinces''],
      [S ''Found '', N (length (filter cities_filter data)), S '' cities/municipalities''],
      [S ''Found '', N (length (filter barangays_filter data)), S '' barangays''],
      [S ''Found '', N (length (filter submuns_filter data)), S '' sub-municipalities'']]"

definition import_entities :: "PSGCData list \<Rightarrow> world \<Rightarrow> world" where
  "import_entities data w0 =
     (let regions = filter regions_filter data;
          provinces = filter provinces_filter data;
          cities = filter cities_filter data;
          barangays = filter barangays_filter data;
          submuns = filter submuns_filter data;
          w1 = import_loop ''regions'' Region regionProps (map obj_of regions) 0
                 (log [S (CHR 0x0A # ''Importing regions...'')] w0);
          w2 = import_loop ''provinces'' Province provinceProps (map obj_of provinces) 0
                 (log [S (CHR 0x0A # ''Importing provinces...'')] w1);
          citiesWithType = map with_type cities;
          w3 = import_loop ''cities/municipalities'' CityMunicipality cityProps citiesWithType 0
                 (log [S (CHR 0x0A # ''Importing cities/municipalities...'')] w2);
          w4 = import_loop ''barangays'' Barangay barangayProps (map obj_of barangays) 0
                 (log [S (CHR 0x0A # ''Importing barangays...'')] w3);
          w5 = import_loop ''sub-municipalities'' SubMunicipality barangayProps (map obj_of submuns) 0
                 (log [S (CHR 0x0A # ''Importing sub-municipalities...'')] w4)
      in w5)"

text \<open>
  The run after the file is read, for the \<open>n\<close> values of \<^verbatim>\<open>data\<close>: first the steps up to
  index creation, then, for the records the filters see, the rest.
\<close>

definition prepare :: "bool \<Rightarrow> nat \<Rightarrow> world \<Rightarrow> world" where
  "prepare clearFlag n w0 =
     (let w1 = log [S ''Loaded '', N n, S '' records''] w0;
          w2 = (if clearFlag then clearDatabase w1 else w1)
      in createIndexes w2)"

definition import_records :: "PSGCData list \<Rightarrow> world \<Rightarrow> world" where
  "import_records data w3 =
     (let w4 = w3\<lparr>console := console w3 @ found_lines data\<rparr>;
          w5 = import_entities data w4;
          w6 = createRelationships_logged (log [S (CHR 0x0A # ''Creating relationships...'')] w5);
          w7 = log [S (CHR 0x0A # ''Verifying import...'')] (log [S (CHR 0x0A # ''Import completed successfully!'')] w6)
      in w7\<lparr>console := console w7 @ verify_lines (db w7)\<rparr>)"

text \<open>The run over records of the interface: every value is counted and filtered.\<close>

definition import_data :: "bool \<Rightarrow> PSGCData list \<Rightarrow> world \<Rightarrow> world" where
  "import_data clearFlag data w0 = import_records data (prepare clearFlag (length data) w0)"



text \<open>The graph a run with \<^verbatim>\<open>--clear\<close> leaves for the parsed records \<open>data\<close>.\<close>

definition build :: "PSGCData list \<Rightarrow> graph" where
  "build data = db (import_data True data \<lparr>db = empty_graph, console = []\<rparr>)"

subsection \<open>The hierarchy resolver (\<^verbatim>\<open>GET /api/hierarchy/[psgc_code]\<close>)\<close>

definition sortOrder :: "label \<Rightarrow> nat" where
  "sortOrder L = (case L of Region \<Rightarrow> 0 | Province \<Rightarrow> 1 | CityMunicipality \<Rightarrow> 2
                  | Barangay \<Rightarrow> 3 | SubMunicipality \<Rightarrow> 3)"

text \<open>
  The node sequences of the directed walks with exactly \<open>k\<close> edges from \<open>s\<close> to \<open>t\<close>,
  whatever the relationship types. \<^verbatim>\<open>shortestPath((r)-[*0..4]->(target))\<close> yields one path
  of least length among those of at most four edges, and no row when there is none; a walk
  of least length repeats no edge, so it is a path in Cypher's sense. With the lower bound
  0 a region that is the target itself is matched by the path without edges. Where several
  paths have the least length the store returns one of them; the model takes the first in
  edge order.
\<close>

fun walks :: "edge list \<Rightarrow> nat \<Rightarrow> nat \<Rightarrow> nat \<Rightarrow> nat list list" where
  "walks es 0 s t = (if s = t then [[s]] else [])"
| "walks es (Suc k) s t =
     concat (map (\<lambda>e. if fst e = s then map ((#) s) (walks es k (snd (snd e)) t) else []) es)"

definition shortestPath :: "edge list \<Rightarrow> nat \<Rightarrow> nat \<Rightarrow> nat list option" where
  "shortestPath es r t =
     (case concat (map (\<lambda>k. walks es k r t) [0..<5]) of [] \<Rightarrow> None | p # _ \<Rightarrow> Some p)"

record hierarchy_row =
  h_type :: label
  h_psgc_code :: "json option"
  h_name :: "json option"
  h_population :: "json option"
  h_city_class :: "json option"
  h_income_classification :: "json option"
  h_urban_rural :: "json option"

definition row_of :: "node \<Rightarrow> hierarchy_row" where
  "row_of n =
     \<lparr>h_type = n_label n,
      h_psgc_code = property n ''psgc_code'',
      h_name = property n ''name'',
      h_population = property n ''population_2020'',
      h_city_class = property n ''city_class'',
      h_income_classification = property n ''income_classification'',
      h_urban_rural = property n ''urban_rural''\<rparr>"

text \<open>\<^verbatim>\<open>MATCH (target {psgc_code: $psgc_code})\<close>: nodes of any label with that code.\<close>

definition match_psgc_code :: "node list \<Rightarrow> string \<Rightarrow> nat list" where
  "match_psgc_code ns code = [t \<leftarrow> [0..<length ns]. cy_eq (property (ns ! t) ''psgc_code'') (lit code)]"

text \<open>One row per pair of a target and a region between which a path exists.\<close>

definition hierarchy_paths :: "graph \<Rightarrow> string \<Rightarrow> nat list list" where
  "hierarchy_paths g code =
     concat (map (\<lambda>t. concat (map (\<lambda>r. case shortestPath (g_edges g) r t of None \<Rightarrow> [] | Some p \<Rightarrow> [p])
                                (match_label (g_nodes g) Region)))
       (match_psgc_code (g_nodes g) code))"

text \<open>
  \<^verbatim>\<open>UNWIND\<close> flattens the paths' nodes into rows, \<^verbatim>\<open>ORDER BY sortOrder\<close> sorts the rows
  of all paths together by rank (rows of equal rank keep their order here; Cypher leaves
  it open), and \<^verbatim>\<open>RETURN\<close> projects each node.
\<close>

definition hierarchy_query :: "graph \<Rightarrow> string \<Rightarrow> hierarchy_row list" where
  "hierarchy_query g code =
     map (\<lambda>i. row_of (g_nodes g ! i))
       (sort_key (\<lambda>i. sortOrder (n_label (g_nodes g ! i))) (concat (hierarchy_paths g code)))"

datatype body = ErrorBody string | HierarchyBody string "hierarchy_row list"

datatype response = Response nat body

text \<open>
  The handler. \<open>None\<close> for the store is a query that throws (the store cannot be reached),
  which the \<^verbatim>\<open>catch\<close> turns into status 500.
\<close>

definition hierarchy_GET :: "graph option \<Rightarrow> string \<Rightarrow> response" where
  "hierarchy_GET store code =
     (case store of
        None \<Rightarrow> Response 500 (ErrorBody ''Failed to fetch hierarchy'')
      | Some g \<Rightarrow>
          (let hierarchy = hierarchy_query g code in
           if hierarchy = [] then Response 404 (ErrorBody ''Location not found'')
           else Response 200 (HierarchyBody code hierarchy)))"

text \<open>The nodes one import run creates for the records \<open>data\<close>, kind by kind.\<close>

definition entity_nodes :: "PSGCData list \<Rightarrow> node list" where
  "entity_nodes data = concat (map (\<lambda>K. map (node_of K) (filter (accepts K) data)) kinds)"

subsection \<open>Notions used to state the properties\<close>

text \<open>The parent edges of a node: the edges that point to it.\<close>

definition in_edges :: "graph \<Rightarrow> nat \<Rightarrow> edge list" where
  "in_edges g j = filter (\<lambda>e. snd (snd e) = j) (g_edges g)"

text \<open>
  The relationship rules of the data model, as one relation between two entities: \<open>p\<close> is
  a parent of \<open>c\<close> when their kinds and segments match one of the five rules.
\<close>

definition parent_rule :: "node \<Rightarrow> node \<Rightarrow> bool" where
  "parent_rule p c \<longleftrightarrow>
     n_label p = Region \<and> n_label c = Province \<and> where_region_province p c
     \<or> n_label p = Province \<and> n_label c = CityMunicipality \<and> where_province_city p c
     \<or> n_label p = CityMunicipality \<and> n_label c = Barangay \<and> where_city_barangay p c
     \<or> n_label p = CityMunicipality \<and> n_label c = SubMunicipality \<and> where_city_submun p c
     \<or> n_label p = Region \<and> n_label c = CityMunicipality \<and> where_ncr p c"

definition parents_by_rule :: "node list \<Rightarrow> nat \<Rightarrow> nat list" where
  "parents_by_rule ns j = filter (\<lambda>i. parent_rule (ns ! i) (ns ! j)) [0..<length ns]"

text \<open>
  An edge between two nodes of the list that leads to a kind of higher rank and keeps the
  region segment.
\<close>

definition edge_ok :: "node list \<Rightarrow> edge \<Rightarrow> bool" where
  "edge_ok ns e \<longleftrightarrow>
     fst e < length ns \<and> snd (snd e) < length ns
     \<and> sortOrder (n_label (ns ! fst e)) < sortOrder (n_label (ns ! snd (snd e)))
     \<and> cy_eq (property (ns ! fst e) ''region_code'') (property (ns ! snd (snd e)) ''region_code'')"

text \<open>The rank of a row, and the segment widths of the data model (2, 3, 2, 3 digits).\<close>

definition row_rank :: "hierarchy_row \<Rightarrow> nat" where
  "row_rank r = sortOrder (h_type r)"

definition is_digit :: "char \<Rightarrow> bool" where
  "is_digit c \<longleftrightarrow> List.member ''0123456789'' c"

definition well_formed_segments :: "PSGCData \<Rightarrow> bool" where
  "well_formed_segments d \<longleftrightarrow>
     length (region_code d) = 2 \<and> length (province_code d) = 3
     \<and> length (municipality_code d) = 2 \<and> length (barangay_code d) = 3
     \<and> list_all is_digit (region_code d @ province_code d @ municipality_code d @ barangay_code d)"





subsection \<open>Sample records\<close>

text \<open>
  A record with the code \<open>rr ppp mm bbb\<close> and the flags the parser derives from the
  geographic level.
\<close>

definition entry :: "string \<Rightarrow> string \<Rightarrow> string \<Rightarrow> string \<Rightarrow> string \<Rightarrow> string \<Rightarrow> PSGCData" where
  "entry nm level rr ppp mm bbb =
     \<lparr>psgc_code = rr @ ppp @ mm @ bbb, name = nm, correspondence_code = [],
      geographic_level = level, old_names = None, city_class = None,
      income_classification = None, urban_rural = None, population_2020 = None, status = None,
      region_code = rr, province_code = ppp, municipality_code = mm, barangay_code = bbb,
      admin_level = level,
      is_region = (level = ''Reg''), is_province = (level = ''Prov''),
      is_city_municipality = (level = ''City'' \<or> level = ''Mun''),
      is_barangay = (level = ''Bgy''), is_submunicipality = (level = ''SubMun'')\<rparr>"

definition region3 :: PSGCData where
  "region3 = entry ''Region III (Central Luzon)'' ''Reg'' ''03'' ''000'' ''00'' ''000''"

definition bulacan :: PSGCData where
  "bulacan = entry ''Bulacan'' ''Prov'' ''03'' ''014'' ''00'' ''000''"

definition angat :: PSGCData where
  "angat = entry ''Angat'' ''Mun'' ''03'' ''014'' ''01'' ''000''"

definition laog :: PSGCData where
  "laog = entry ''Laog'' ''Bgy'' ''03'' ''014'' ''01'' ''007''"

definition ncr :: PSGCData where
  "ncr = entry ''National Capital Region (NCR)'' ''Reg'' ''13'' ''000'' ''00'' ''000''"

definition ncr_city :: PSGCData where
  "ncr_city = entry ''City of Mandaluyong'' ''City'' ''13'' ''039'' ''01'' ''000''"

definition ncr_province :: PSGCData where
  "ncr_province = entry ''NCR, Second District'' ''Prov'' ''13'' ''039'' ''00'' ''000''"

definition ncr_district :: PSGCData where
  "ncr_district = entry ''NCR, Third District'' ''Dist'' ''13'' ''075'' ''00'' ''000''"



definition untagged_submun :: PSGCData where
  "untagged_submun = (entry ''Tondo I/II'' ''SubMun'' ''13'' ''806'' ''01'' ''000'')\<lparr>is_submunicipality := False\<rparr>"




text \<open>What one pass adds, as a function of the nodes alone.\<close>

fun pass_edges :: "pass \<Rightarrow> node list \<Rightarrow> edge list" where
  "pass_edges RegionProvince ns = matched_pairs ns Region Province where_region_province HAS_PROVINCE"
| "pass_edges ProvinceCity ns =
     matched_pairs ns Province CityMunicipality where_province_city HAS_CITY_MUNICIPALITY"
| "pass_edges CityBarangay ns =
     matched_pairs ns CityMunicipality Barangay where_city_barangay HAS_BARANGAY"
| "pass_edges CitySubMun ns =
     matched_pairs ns CityMunicipality SubMunicipality where_city_submun HAS_SUBMUNICIPALITY"
| "pass_edges NCR ns = matched_pairs ns Region CityMunicipality where_ncr HAS_CITY_MUNICIPALITY"

definition new_edges :: "node list \<Rightarrow> edge list" where
  "new_edges ns =
     pass_edges RegionProvince ns @ pass_edges ProvinceCity ns @ pass_edges CityBarangay ns
       @ pass_edges CitySubMun ns @ pass_edges NCR ns"

section \<open>Properties of relationship building\<close>

lemma run_pass_nodes: "g_nodes (run_pass p g) = g_nodes g"
  by (cases p) (simp_all add: create_edges_def)

lemma run_pass_edges: "g_edges (run_pass p g) = g_edges g @ pass_edges p (g_nodes g)"
  by (cases p) (simp_all add: create_edges_def)

lemma run_passes_nodes: "g_nodes (run_passes ps g) = g_nodes g"
  by (induction ps arbitrary: g) (simp_all add: run_pass_nodes)

lemma run_passes_edges:
  "g_edges (run_passes ps g) = g_edges g @ concat (map (\<lambda>p. pass_edges p (g_nodes g)) ps)"
  by (induction ps arbitrary: g) (simp_all add: run_pass_nodes run_pass_edges)

lemma createRelationships_nodes: "g_nodes (createRelationships g) = g_nodes g"
  by (simp only: createRelationships_def run_pass_nodes)

lemma createRelationships_edges:
  "g_edges (createRelationships g) = g_edges g @ new_edges (g_nodes g)"
  by (simp only: createRelationships_def run_pass_nodes run_pass_edges new_edges_def append_assoc)

lemma createRelationships_run_passes:
  "createRelationships g = run_passes [RegionProvince, ProvinceCity, CityBarangay, CitySubMun, NCR] g"
  by (simp add: createRelationships_def)

section \<open>Properties of the import\<close>

lemma importBatch_nodes:
  "importBatch items L props g = g\<lparr>g_nodes := g_nodes g @ map (new_node L props) items\<rparr>"
  by (simp add: importBatch_def)

lemma import_loop_db:
  "db (import_loop what L props items i w)
     = (db w)\<lparr>g_nodes := g_nodes (db w) @ map (new_node L props) (drop i items)\<rparr>"
proof (induction what L props items i w rule: import_loop.induct)
  case (1 what nodeType properties items i w)
  show ?case
  proof (cases "i < length items")
    case True
    have split: "take BATCH_SIZE (drop i items) @ drop (i + BATCH_SIZE) items = drop i items"
      by (metis add.commute append_take_drop_id drop_drop)
    have "map (new_node nodeType properties) (take BATCH_SIZE (drop i items))
            @ map (new_node nodeType properties) (drop (i + BATCH_SIZE) items)
          = map (new_node nodeType properties) (drop i items)"
      by (simp only: map_append [symmetric] split)
    with True "1.IH" show ?thesis
      by (subst import_loop.simps) (simp add: importBatch_nodes log_def)
  next
    case False
    then show ?thesis by (subst import_loop.simps) simp
  qed
qed

lemma import_entities_db:
  "db (import_entities data w) = (db w)\<lparr>g_nodes := g_nodes (db w) @ entity_nodes data\<rparr>"
  by (simp add: import_entities_def Let_def import_loop_db log_def entity_nodes_def kinds_def
        comp_def)

lemma import_data_db:
  "db (import_data clearFlag data w)
     = createRelationships
         ((if clearFlag then empty_graph else db w)
            \<lparr>g_nodes := g_nodes (if clearFlag then empty_graph else db w) @ entity_nodes data\<rparr>)"
  by (simp add: import_data_def prepare_def import_records_def Let_def createRelationships_logged_def log_def import_entities_db
        createIndexes_def clearDatabase_def)

lemma build_eq: "build data = createRelationships \<lparr>g_nodes = entity_nodes data, g_edges = []\<rparr>"
  by (simp add: build_def import_data_db empty_graph_def)

lemma build_nodes: "g_nodes (build data) = entity_nodes data"
  by (simp add: build_eq createRelationships_nodes)

lemma build_edges: "g_edges (build data) = new_edges (entity_nodes data)"
  by (simp add: build_eq createRelationships_edges)

section \<open>Edges of a freshly built graph\<close>

lemma match_label_iff: "i \<in> set (match_label ns L) \<longleftrightarrow> i < length ns \<and> n_label (ns ! i) = L"
  by (auto simp: match_label_def)

lemma distinct_match_label: "distinct (match_label ns L)"
  by (simp add: match_label_def)

lemma matched_pairs_iff:
  "(a, T', b) \<in> set (matched_pairs ns La Lb w T) \<longleftrightarrow>
     T' = T \<and> a < length ns \<and> b < length ns \<and> n_label (ns ! a) = La \<and> n_label (ns ! b) = Lb
     \<and> w (ns ! a) (ns ! b)"
  by (auto simp: matched_pairs_def match_label_iff)

lemma cy_eq_sym: "cy_eq a b \<Longrightarrow> cy_eq b a"
  by (auto simp: cy_eq_def split: option.splits)

lemma cy_eq_trans: "cy_eq a b \<Longrightarrow> cy_eq b c \<Longrightarrow> cy_eq a c"
  by (auto simp: cy_eq_def split: option.splits)

lemma cy_eq_lit: "cy_eq a (lit s) \<Longrightarrow> cy_eq b (lit s) \<Longrightarrow> cy_eq a b"
  by (auto simp: cy_eq_def lit_def split: option.splits)

lemma new_edges_iff:
  "(a, T, b) \<in> set (new_edges ns) \<longleftrightarrow>
     a < length ns \<and> b < length ns \<and>
     (T = HAS_PROVINCE \<and> n_label (ns ! a) = Region \<and> n_label (ns ! b) = Province
        \<and> where_region_province (ns ! a) (ns ! b)
      \<or> T = HAS_CITY_MUNICIPALITY \<and> n_label (ns ! a) = Province \<and> n_label (ns ! b) = CityMunicipality
        \<and> where_province_city (ns ! a) (ns ! b)
      \<or> T = HAS_BARANGAY \<and> n_label (ns ! a) = CityMunicipality \<and> n_label (ns ! b) = Barangay
        \<and> where_city_barangay (ns ! a) (ns ! b)
      \<or> T = HAS_SUBMUNICIPALITY \<and> n_label (ns ! a) = CityMunicipality \<and> n_label (ns ! b) = SubMunicipality
        \<and> where_city_submun (ns ! a) (ns ! b)
      \<or> T = HAS_CITY_MUNICIPALITY \<and> n_label (ns ! a) = Region \<and> n_label (ns ! b) = CityMunicipality
        \<and> where_ncr (ns ! a) (ns ! b))"
  unfolding new_edges_def pass_edges.simps set_append Un_iff matched_pairs_iff by blast

lemma new_edges_ok: "e \<in> set (new_edges ns) \<Longrightarrow> edge_ok ns e"
proof -
  assume e: "e \<in> set (new_edges ns)"
  obtain a T b where abc: "e = (a, T, b)" by (cases e) auto
  from e [unfolded abc new_edges_iff] show ?thesis
    unfolding abc edge_ok_def fst_conv snd_conv
    by (auto simp: sortOrder_def where_region_province_def where_province_city_def
          where_city_barangay_def where_city_submun_def where_ncr_def
          intro: cy_eq_sym cy_eq_lit)
qed

section \<open>Walks\<close>

lemma walks_Suc_iff:
  "p \<in> set (walks es (Suc k) s t) \<longleftrightarrow>
     (\<exists>T b q. (s, T, b) \<in> set es \<and> q \<in> set (walks es k b t) \<and> p = s # q)"
  by (force simp: image_iff)

lemma walks_shape:
  "p \<in> set (walks es k s t) \<Longrightarrow> length p = Suc k \<and> hd p = s \<and> last p = t"
proof (induction k arbitrary: s p)
  case 0
  then show ?case by (simp split: if_splits)
next
  case (Suc k)
  from Suc.prems obtain T b q where q: "(s, T, b) \<in> set es" "q \<in> set (walks es k b t)" "p = s # q"
    unfolding walks_Suc_iff by blast
  from Suc.IH [OF q(2)] q(3) show ?case by (cases q) auto
qed

lemma walks_ranked:
  assumes ok: "\<forall>e \<in> set es. edge_ok ns e"
  shows "p \<in> set (walks es k s t) \<Longrightarrow>
     sorted_wrt (<) (map (\<lambda>i. sortOrder (n_label (ns ! i))) p)
     \<and> (0 < k \<longrightarrow> (\<forall>i \<in> set p. i < length ns))
     \<and> (0 < k \<longrightarrow> cy_eq (property (ns ! s) ''region_code'') (property (ns ! t) ''region_code''))"
proof (induction k arbitrary: s p)
  case 0
  then show ?case by (simp split: if_splits)
next
  case (Suc k)
  from Suc.prems obtain T b q where q: "(s, T, b) \<in> set es" "q \<in> set (walks es k b t)" "p = s # q"
    unfolding walks_Suc_iff by blast
  from ok q(1) have e: "edge_ok ns (s, T, b)" by blast
  from walks_shape [OF q(2)] obtain q' where q': "q = b # q'" "last (b # q') = t" "length q' = k"
    by (cases q) auto
  note IH = Suc.IH [OF q(2)]
  have r: "sorted_wrt (<) (map (\<lambda>i. sortOrder (n_label (ns ! i))) p)"
    using IH e unfolding q(3) q' edge_ok_def by (auto)
  have b: "\<forall>i \<in> set p. i < length ns"
  proof (cases k)
    case 0
    with q(2) e show ?thesis unfolding q(3) edge_ok_def by (auto split: if_splits)
  next
    case (Suc k')
    with IH e show ?thesis unfolding q(3) edge_ok_def by auto
  qed
  have c: "cy_eq (property (ns ! s) ''region_code'') (property (ns ! t) ''region_code'')"
  proof (cases k)
    case 0
    with q(2) e show ?thesis unfolding edge_ok_def by (auto split: if_splits)
  next
    case (Suc k')
    with IH have "cy_eq (property (ns ! b) ''region_code'') (property (ns ! t) ''region_code'')" by simp
    with e show ?thesis unfolding edge_ok_def by (auto intro: cy_eq_trans)
  qed
  from r b c show ?case by simp
qed


lemma sorted_wrt_hd_last:
  assumes "sorted_wrt (<) (map f p)" "2 \<le> length p"
  shows "(f (hd p) :: nat) < f (last p)"
proof -
  from assms(2) have ne: "p \<noteq> []" by auto
  have "map f p ! 0 < map f p ! (length p - 1)"
    using assms by (intro sorted_wrt_nth_less [OF assms(1)]) auto
  with ne assms(2) show ?thesis by (simp add: hd_conv_nth last_conv_nth)
qed

lemma walks_rank_lt:
  assumes "\<forall>e \<in> set es. edge_ok ns e" "p \<in> set (walks es (Suc k) s t)"
  shows "sortOrder (n_label (ns ! s)) < sortOrder (n_label (ns ! t))"
  using walks_ranked [OF assms] walks_shape [OF assms(2)]
        sorted_wrt_hd_last [of "\<lambda>i. sortOrder (n_label (ns ! i))" p]
  by auto

section \<open>Shortest paths\<close>

lemma upt_5: "[0..<5] = [0, 1, 2, 3, 4]"
  by (simp add: upt_rec)

lemma shortestPath_Some:
  "shortestPath es r t = Some p \<Longrightarrow> \<exists>k<5. p \<in> set (walks es k r t)"
proof -
  assume a: "shortestPath es r t = Some p"
  then obtain rest where "concat (map (\<lambda>k. walks es k r t) [0..<5]) = p # rest"
    by (auto simp: shortestPath_def split: list.splits)
  then have "p \<in> set (concat (map (\<lambda>k. walks es k r t) [0..<5]))"
    by (metis list.set_intros(1))
  then obtain k where "k \<in> set [0..<5]" "p \<in> set (walks es k r t)"
    unfolding set_concat set_map by blast
  then show ?thesis by auto
qed

lemma shortestPath_None:
  assumes "\<And>k. k < 5 \<Longrightarrow> walks es k r t = []"
  shows "shortestPath es r t = None"
proof -
  have "concat (map (\<lambda>k. walks es k r t) [0..<5]) = []"
    unfolding concat_eq_Nil_conv using assms by auto
  then show ?thesis by (simp only: shortestPath_def list.case)
qed

lemma shortestPath_self: "shortestPath es t t = Some [t]"
  by (simp add: shortestPath_def upt_5 del: walks.simps(2))

lemma shortestPath_edge:
  assumes "r \<noteq> t" "(r, T, t) \<in> set es"
  shows "shortestPath es r t = Some [r, t]"
proof -
  have w0: "walks es 0 r t = []" using assms(1) by simp
  have all: "p = [r, t]" if "p \<in> set (walks es (Suc 0) r t)" for p
  proof -
    from walks_shape [OF that] have "length p = 2" "hd p = r" "last p = t" by auto
    then show ?thesis by (cases p; cases "tl p") auto
  qed
  have "[t] \<in> set (walks es 0 t t)" by simp
  with assms(2) have "[r, t] \<in> set (walks es (Suc 0) r t)"
    unfolding walks_Suc_iff by blast
  then obtain q qs where q: "walks es (Suc 0) r t = q # qs"
    by (cases "walks es (Suc 0) r t") (auto simp del: walks.simps)
  then have "q \<in> set (walks es (Suc 0) r t)" by (simp del: walks.simps)
  with all q have "walks es (Suc 0) r t = [r, t] # qs" by (simp del: walks.simps)
  with w0 show ?thesis by (simp add: shortestPath_def upt_5 del: walks.simps)
qed

section \<open>The resolver\<close>

lemma filter_upt_single:
  assumes "t < n" "P t" "\<And>i. i < n \<Longrightarrow> P i \<Longrightarrow> i = t"
  shows "filter P [0..<n] = [t]"
  using assms
proof (induction n)
  case 0
  then show ?case by simp
next
  case (Suc n)
  show ?case
  proof (cases "t = n")
    case True
    have "\<not> P i" if "i < n" for i
      using Suc.prems(3) [of i] True that by auto
    then have "filter P [0..<n] = []"
      by (auto simp: filter_empty_conv)
    with True Suc.prems(2) show ?thesis by simp
  next
    case False
    with Suc.prems(1) have t: "t < n" by simp
    have n: "\<not> P n" using Suc.prems(3) [of n] False by auto
    have "filter P [0..<n] = [t]"
    proof (rule Suc.IH [OF t Suc.prems(2)])
      fix i assume "i < n" "P i"
      then show "i = t" using Suc.prems(3) [of i] by simp
    qed
    with n show ?thesis by simp
  qed
qed

lemma cy_eq_lit_iff: "cy_eq a (lit s) \<longleftrightarrow> a = lit s"
  by (auto simp: cy_eq_def lit_def split: option.splits)

lemma match_psgc_code_unique:
  assumes "t < length ns" "property (ns ! t) ''psgc_code'' = lit code"
    and "\<And>i. i < length ns \<Longrightarrow> property (ns ! i) ''psgc_code'' = lit code \<Longrightarrow> i = t"
  shows "match_psgc_code ns code = [t]"
  unfolding match_psgc_code_def cy_eq_lit_iff
proof (rule filter_upt_single)
  show "t < length ns" by (rule assms(1))
  show "property (ns ! t) ''psgc_code'' = lit code" by (rule assms(2))
  show "i = t" if "i < length ns" "property (ns ! i) ''psgc_code'' = lit code" for i
    using that by (rule assms(3))
qed

lemma concat_map_single:
  assumes "distinct xs" "\<And>x. x \<in> set xs \<Longrightarrow> x \<noteq> a \<Longrightarrow> f x = []"
  shows "concat (map f xs) = (if a \<in> set xs then f a else [])"
  using assms by (induction xs) auto

lemma hierarchy_paths_single:
  assumes "match_psgc_code (g_nodes g) code = [t]"
    and "\<And>r'. r' < length (g_nodes g) \<Longrightarrow> n_label (g_nodes g ! r') = Region \<Longrightarrow> r' \<noteq> r
            \<Longrightarrow> shortestPath (g_edges g) r' t = None"
  shows "hierarchy_paths g code =
     (if r < length (g_nodes g) \<and> n_label (g_nodes g ! r) = Region
      then (case shortestPath (g_edges g) r t of None \<Rightarrow> [] | Some p \<Rightarrow> [p]) else [])"
proof -
  let ?f = "\<lambda>r. case shortestPath (g_edges g) r t of None \<Rightarrow> [] | Some p \<Rightarrow> [p]"
  have "concat (map ?f (match_label (g_nodes g) Region))
          = (if r \<in> set (match_label (g_nodes g) Region) then ?f r else [])"
    by (rule concat_map_single) (auto simp: distinct_match_label match_label_iff assms(2))
  then show ?thesis by (simp add: hierarchy_paths_def assms(1) match_label_iff)
qed

lemma hierarchy_query_single:
  assumes "hierarchy_paths g code = [p]"
    and "sorted_wrt (<) (map (\<lambda>i. sortOrder (n_label (g_nodes g ! i))) p)"
  shows "hierarchy_query g code = map (\<lambda>i. row_of (g_nodes g ! i)) p"
proof -
  from assms(2) have "sorted (map (\<lambda>i. sortOrder (n_label (g_nodes g ! i))) p)"
    by (rule strict_sorted_imp_sorted)
  then show ?thesis
    by (simp add: hierarchy_query_def assms(1) sort_key_id_if_sorted)
qed

lemma mset_concat_map_cong:
  "mset ps = mset qs \<Longrightarrow> mset (concat (map f ps)) = mset (concat (map f qs))"
proof -
  assume eq: "mset ps = mset qs"
  have "mset (concat (map f ps)) = sum_mset (image_mset (\<lambda>p. mset (f p)) (mset ps))" for ps :: "'a list"
    by (induction ps) simp_all
  with eq show ?thesis by simp
qed

text \<open>
  C4. Relationship building is not idempotent: a second run over the same entities, without
  clearing, appends every edge again, so each relationship type occurs exactly twice as
  often as after one run, and the second run leaves the graph unchanged only when the
  first created no edge at all.
\<close>

theorem createRelationships_twice_doubles:
  "count_rel T (createRelationships (createRelationships \<lparr>g_nodes = ns, g_edges = []\<rparr>))
     = 2 * count_rel T (createRelationships \<lparr>g_nodes = ns, g_edges = []\<rparr>)
   \<and> mset (g_edges (createRelationships (createRelationships \<lparr>g_nodes = ns, g_edges = []\<rparr>)))
     = mset (g_edges (createRelationships \<lparr>g_nodes = ns, g_edges = []\<rparr>))
       + mset (g_edges (createRelationships \<lparr>g_nodes = ns, g_edges = []\<rparr>))
   \<and> ((createRelationships (createRelationships \<lparr>g_nodes = ns, g_edges = []\<rparr>)
         = createRelationships \<lparr>g_nodes = ns, g_edges = []\<rparr>)
        = (g_edges (createRelationships \<lparr>g_nodes = ns, g_edges = []\<rparr>) = []))"
proof -
  let ?g0 = "\<lparr>g_nodes = ns, g_edges = []\<rparr>"
  let ?g1 = "createRelationships ?g0"
  let ?g2 = "createRelationships ?g1"
  have e1: "g_edges ?g1 = new_edges ns"
    by (simp add: createRelationships_edges)
  have e2: "g_edges ?g2 = new_edges ns @ new_edges ns"
    by (simp add: createRelationships_edges createRelationships_nodes)
  have n2: "g_nodes ?g2 = g_nodes ?g1"
    by (simp add: createRelationships_nodes)
  have "count_rel T ?g2 = 2 * count_rel T ?g1"
    by (simp add: count_rel_def e1 e2)
  moreover have "mset (g_edges ?g2) = mset (g_edges ?g1) + mset (g_edges ?g1)"
    by (simp add: e1 e2)
  moreover have "(?g2 = ?g1) = (g_edges ?g1 = [])"
  proof
    assume "?g2 = ?g1"
    then have "g_edges ?g2 = g_edges ?g1" by simp
    then show "g_edges ?g1 = []" by (simp add: e1 e2)
  next
    assume "g_edges ?g1 = []"
    then have "g_edges ?g2 = g_edges ?g1" by (simp add: e1 e2)
    with n2 show "?g2 = ?g1" by (simp add: graph.equality)
  qed
  ultimately show ?thesis by blast
qed

theorem createRelationships_twice_doubles_example:
  "count_rel HAS_CITY_MUNICIPALITY
     (createRelationships \<lparr>g_nodes = entity_nodes [ncr, ncr_province, ncr_city], g_edges = []\<rparr>) = 2
   \<and> count_rel HAS_CITY_MUNICIPALITY
     (createRelationships (createRelationships
        \<lparr>g_nodes = entity_nodes [ncr, ncr_province, ncr_city], g_edges = []\<rparr>)) = 4"
proof -
  have one: "count_rel HAS_CITY_MUNICIPALITY
     (createRelationships \<lparr>g_nodes = entity_nodes [ncr, ncr_province, ncr_city], g_edges = []\<rparr>) = 2"
    by code_simp
  with createRelationships_twice_doubles
         [of HAS_CITY_MUNICIPALITY "entity_nodes [ncr, ncr_province, ncr_city]"]
  show ?thesis by simp
qed

text \<open>
  C9. The five passes are order independent. What a pass adds does not depend on the
  edges already in the store (the first conjunct: the same pass over the same nodes with
  any other edge list \<open>es\<close> appends the same edges), so running the five passes in any
  order \<open>ps\<close> yields the same nodes and the same multiset of edges as the order of the
  source.
\<close>

theorem passes_order_independent:
  assumes "mset ps = mset [RegionProvince, ProvinceCity, CityBarangay, CitySubMun, NCR]"
  shows "drop (length es) (g_edges (run_pass p (g\<lparr>g_edges := es\<rparr>)))
           = drop (length (g_edges g)) (g_edges (run_pass p g))
         \<and> g_nodes (run_passes ps g) = g_nodes (createRelationships g)
         \<and> mset (g_edges (run_passes ps g)) = mset (g_edges (createRelationships g))"
proof -
  have "drop (length es) (g_edges (run_pass p (g\<lparr>g_edges := es\<rparr>)))
          = drop (length (g_edges g)) (g_edges (run_pass p g))"
    by (simp add: run_pass_edges)
  moreover have "g_nodes (run_passes ps g) = g_nodes (createRelationships g)"
    by (simp add: run_passes_nodes createRelationships_nodes)
  moreover have "mset (g_edges (run_passes ps g)) = mset (g_edges (createRelationships g))"
    unfolding createRelationships_run_passes run_passes_edges
    using mset_concat_map_cong [OF assms, of "\<lambda>p. pass_edges p (g_nodes g)"] by simp
  ultimately show ?thesis by blast
qed

theorem passes_order_independent_witness:
  "mset (g_edges (run_passes [NCR, CitySubMun, CityBarangay, ProvinceCity, RegionProvince]
            \<lparr>g_nodes = entity_nodes [ncr, ncr_province, ncr_city], g_edges = []\<rparr>))
     = mset [(0, HAS_PROVINCE, 1), (1, HAS_CITY_MUNICIPALITY, 2), (0, HAS_CITY_MUNICIPALITY, 2)]
   \<and> g_edges (run_passes [NCR, CitySubMun, CityBarangay, ProvinceCity, RegionProvince]
            \<lparr>g_nodes = entity_nodes [ncr, ncr_province, ncr_city], g_edges = []\<rparr>)
     = [(0, HAS_CITY_MUNICIPALITY, 2), (1, HAS_CITY_MUNICIPALITY, 2), (0, HAS_PROVINCE, 1)]"
proof -
  let ?g = "\<lparr>g_nodes = entity_nodes [ncr, ncr_province, ncr_city], g_edges = []\<rparr>"
  have p: "mset [NCR, CitySubMun, CityBarangay, ProvinceCity, RegionProvince]
             = mset [RegionProvince, ProvinceCity, CityBarangay, CitySubMun, NCR]"
    by simp
  have e: "g_edges (createRelationships ?g)
             = [(0, HAS_PROVINCE, 1), (1, HAS_CITY_MUNICIPALITY, 2), (0, HAS_CITY_MUNICIPALITY, 2)]"
    by code_simp
  have r: "g_edges (run_passes [NCR, CitySubMun, CityBarangay, ProvinceCity, RegionProvince] ?g)
             = [(0, HAS_CITY_MUNICIPALITY, 2), (1, HAS_CITY_MUNICIPALITY, 2), (0, HAS_PROVINCE, 1)]"
    by code_simp
  from passes_order_independent [OF p, of "[]" NCR ?g] e r show ?thesis by simp
qed

lemma build_edges_ok: "\<forall>e \<in> set (g_edges (build data)). edge_ok (g_nodes (build data)) e"
  by (simp add: build_edges build_nodes new_edges_ok)

lemma filter_single_D:
  assumes "filter P xs = [t]"
  shows "t \<in> set xs" "P t" "\<And>i. i \<in> set xs \<Longrightarrow> P i \<Longrightarrow> i = t"
proof -
  have s: "set (filter P xs) = {t}" by (simp add: assms)
  then show "t \<in> set xs" "P t" by auto
  show "i = t" if "i \<in> set xs" "P i" for i
  proof -
    from that have "i \<in> set (filter P xs)" by simp
    with s show ?thesis by simp
  qed
qed

lemma match_psgc_code_single_D:
  assumes "match_psgc_code ns code = [t]"
  shows "t < length ns" "property (ns ! t) ''psgc_code'' = lit code"
  using filter_single_D(1,2) [OF assms [unfolded match_psgc_code_def]]
  by (auto simp: cy_eq_lit_iff)

lemma no_walk_into_rank0:
  assumes ok: "\<forall>e \<in> set es. edge_ok ns e" and "r \<noteq> t" "sortOrder (n_label (ns ! t)) = 0"
  shows "shortestPath es r t = None"
proof (rule shortestPath_None)
  fix k :: nat assume "k < 5"
  show "walks es k r t = []"
  proof (cases k)
    case 0
    with assms(2) show ?thesis by simp
  next
    case (Suc k')
    show ?thesis
    proof (rule ccontr)
      assume "walks es k r t \<noteq> []"
      then obtain p where "p \<in> set (walks es (Suc k') r t)"
        unfolding Suc by (cases "walks es (Suc k') r t") (auto simp del: walks.simps)
      from walks_rank_lt [OF ok this] assms(3) show False by simp
    qed
  qed
qed

text \<open>
  C8 (amended). In a freshly built graph, resolving the code of a Region that is the only
  entity with that code returns the one row of that Region, and the handler answers with
  it.
\<close>

theorem region_self_path:
  fixes data :: "PSGCData list"
  defines "g \<equiv> build data"
  assumes "match_psgc_code (g_nodes g) code = [t]"
    and "n_label (g_nodes g ! t) = Region"
  shows "hierarchy_query g code = [row_of (g_nodes g ! t)]
         \<and> hierarchy_GET (Some g) code = Response 200 (HierarchyBody code [row_of (g_nodes g ! t)])"
proof -
  have ok: "\<forall>e \<in> set (g_edges g). edge_ok (g_nodes g) e"
    unfolding g_def by (rule build_edges_ok)
  have t: "t < length (g_nodes g)"
    using assms(2) by (rule match_psgc_code_single_D)
  have others: "shortestPath (g_edges g) r' t = None"
    if "r' < length (g_nodes g)" "n_label (g_nodes g ! r') = Region" "r' \<noteq> t" for r'
    using ok that(3) by (rule no_walk_into_rank0) (simp add: assms(3) sortOrder_def)
  have "hierarchy_paths g code = [[t]]"
    using hierarchy_paths_single [OF assms(2) others, of t] t assms(3)
    by (simp add: shortestPath_self)
  then have "hierarchy_query g code = map (\<lambda>i. row_of (g_nodes g ! i)) [t]"
    by (rule hierarchy_query_single) simp
  then show ?thesis by (simp add: hierarchy_GET_def)
qed

theorem region_self_path_witness:
  "hierarchy_query (build [region3, bulacan, angat, laog]) ''0300000000''
     = [\<lparr>h_type = Region, h_psgc_code = Some (JStr ''0300000000''),
         h_name = Some (JStr ''Region III (Central Luzon)''), h_population = None,
         h_city_class = None, h_income_classification = None, h_urban_rural = None\<rparr>]"
proof -
  let ?g = "build [region3, bulacan, angat, laog]"
  have a: "match_psgc_code (g_nodes ?g) ''0300000000'' = [0]" by code_simp
  have b: "n_label (g_nodes ?g ! 0) = Region" by code_simp
  have c: "row_of (g_nodes ?g ! 0)
     = \<lparr>h_type = Region, h_psgc_code = Some (JStr ''0300000000''),
         h_name = Some (JStr ''Region III (Central Luzon)''), h_population = None,
         h_city_class = None, h_income_classification = None, h_urban_rural = None\<rparr>"
    by code_simp
  from region_self_path [OF a b] c show ?thesis by simp
qed

theorem region_shared_code_counterexample:
  "n_label (g_nodes (build [region3, region3]) ! 0) = Region
   \<and> property (g_nodes (build [region3, region3]) ! 0) ''psgc_code'' = lit ''0300000000''
   \<and> match_psgc_code (g_nodes (build [region3, region3])) ''0300000000'' = [0, 1]
   \<and> length (hierarchy_query (build [region3, region3]) ''0300000000'') = 2
   \<and> map h_type (hierarchy_query (build [region3, region3]) ''0300000000'') = [Region, Region]"
  by code_simp

lemma cy_eq_imp_eq: "cy_eq a b \<Longrightarrow> a = b"
  by (auto simp: cy_eq_def split: option.splits)

lemma walks_region_code:
  assumes "\<forall>e \<in> set es. edge_ok ns e" "p \<in> set (walks es (Suc k) s t)"
  shows "cy_eq (property (ns ! s) ''region_code'') (property (ns ! t) ''region_code'')"
  using walks_ranked [OF assms] by simp

text \<open>
  C3 (amended). In a freshly built graph with exactly one Region of region segment "13",
  every CityMunicipality of region segment "13" has the direct edge from that Region; and
  when the city is the only entity that carries its code, resolving that code yields the
  Region followed by the city and nothing else, whether or not a Province matches the
  city.
\<close>

theorem ncr_city_path:
  fixes data :: "PSGCData list"
  defines "g \<equiv> build data"
  assumes region13: "filter (\<lambda>r. cy_eq (property (g_nodes g ! r) ''region_code'') (lit ''13''))
                       (match_label (g_nodes g) Region) = [r]"
    and cn: "c < length (g_nodes g)"
    and city: "n_label (g_nodes g ! c) = CityMunicipality"
    and c13: "cy_eq (property (g_nodes g ! c) ''region_code'') (lit ''13'')"
  shows "(r, HAS_CITY_MUNICIPALITY, c) \<in> set (g_edges g)
         \<and> (match_psgc_code (g_nodes g) code = [c] \<longrightarrow>
               hierarchy_query g code = [row_of (g_nodes g ! r), row_of (g_nodes g ! c)])"
proof -
  let ?ns = "g_nodes g" and ?es = "g_edges g"
  have ok: "\<forall>e \<in> set ?es. edge_ok ?ns e"
    unfolding g_def by (rule build_edges_ok)
  have es: "?es = new_edges ?ns"
    unfolding g_def by (simp add: build_edges build_nodes)
  note r = filter_single_D [OF region13]
  from r(1) have rn: "r < length ?ns" and rl: "n_label (?ns ! r) = Region"
    by (simp_all add: match_label_iff)
  have edge: "(r, HAS_CITY_MUNICIPALITY, c) \<in> set ?es"
    unfolding es new_edges_iff using rn cn rl city r(2) c13 by (simp add: where_ncr_def)
  have rc: "r \<noteq> c" using rl city by auto
  have others: "shortestPath ?es r' c = None"
    if r': "r' < length ?ns" "n_label (?ns ! r') = Region" "r' \<noteq> r" for r'
  proof (rule shortestPath_None)
    fix k :: nat assume "k < 5"
    show "walks ?es k r' c = []"
    proof (cases k)
      case 0
      from r'(2) city have "r' \<noteq> c" by auto
      with 0 show ?thesis by simp
    next
      case (Suc k')
      show ?thesis
      proof (rule ccontr)
        assume "walks ?es k r' c \<noteq> []"
        then obtain p where "p \<in> set (walks ?es (Suc k') r' c)"
          unfolding Suc by (cases "walks ?es (Suc k') r' c") (auto simp del: walks.simps)
        from walks_region_code [OF ok this] c13
        have "cy_eq (property (?ns ! r') ''region_code'') (lit ''13'')"
          by (rule cy_eq_trans)
        moreover from r'(1,2) have "r' \<in> set (match_label ?ns Region)"
          by (simp add: match_label_iff)
        ultimately have "r' = r" by (intro r(3))
        with r'(3) show False by simp
      qed
    qed
  qed
  have rows: "hierarchy_query g code = [row_of (?ns ! r), row_of (?ns ! c)]"
    if target: "match_psgc_code ?ns code = [c]"
  proof -
    have "hierarchy_paths g code = [[r, c]]"
      using hierarchy_paths_single [OF target others, of r] rn rl
      by (simp add: shortestPath_edge [OF rc edge])
    then have "hierarchy_query g code = map (\<lambda>i. row_of (?ns ! i)) [r, c]"
      by (rule hierarchy_query_single) (simp add: rl city sortOrder_def)
    then show ?thesis by simp
  qed
  from edge rows show ?thesis by blast
qed

theorem ncr_city_path_witness:
  "(0, HAS_CITY_MUNICIPALITY, 2) \<in> set (g_edges (build [ncr, ncr_province, ncr_city]))
   \<and> (1, HAS_CITY_MUNICIPALITY, 2) \<in> set (g_edges (build [ncr, ncr_province, ncr_city]))
   \<and> map h_type (hierarchy_query (build [ncr, ncr_province, ncr_city]) ''1303901000'')
       = [Region, CityMunicipality]
   \<and> map h_psgc_code (hierarchy_query (build [ncr, ncr_province, ncr_city]) ''1303901000'')
       = [Some (JStr ''1300000000''), Some (JStr ''1303901000'')]"
proof -
  let ?g = "build [ncr, ncr_province, ncr_city]"
  have a: "filter (\<lambda>r. cy_eq (property (g_nodes ?g ! r) ''region_code'') (lit ''13''))
             (match_label (g_nodes ?g) Region) = [0]"
    by code_simp
  have b: "match_psgc_code (g_nodes ?g) ''1303901000'' = [2]" by code_simp
  have b': "2 < length (g_nodes ?g)" by code_simp
  have c: "n_label (g_nodes ?g ! 2) = CityMunicipality" by code_simp
  have d: "cy_eq (property (g_nodes ?g ! 2) ''region_code'') (lit ''13'')" by code_simp
  have e: "(1, HAS_CITY_MUNICIPALITY, 2) \<in> set (g_edges ?g)" by code_simp
  have f: "map h_type [row_of (g_nodes ?g ! 0), row_of (g_nodes ?g ! 2)] = [Region, CityMunicipality]"
    by code_simp
  have h: "map h_psgc_code [row_of (g_nodes ?g ! 0), row_of (g_nodes ?g ! 2)]
             = [Some (JStr ''1300000000''), Some (JStr ''1303901000'')]"
    by code_simp
  from ncr_city_path [OF a b' c d, of "''1303901000''"] b e f h show ?thesis by simp
qed

theorem ncr_city_shared_code_counterexample:
  "n_label (g_nodes (build [ncr, ncr_city, ncr_city]) ! 1) = CityMunicipality
   \<and> property (g_nodes (build [ncr, ncr_city, ncr_city]) ! 1) ''region_code'' = lit ''13''
   \<and> property (g_nodes (build [ncr, ncr_city, ncr_city]) ! 1) ''psgc_code'' = lit ''1303901000''
   \<and> map h_type (hierarchy_query (build [ncr, ncr_city, ncr_city]) ''1303901000'')
       = [Region, Region, CityMunicipality, CityMunicipality]
   \<and> n_label (g_nodes (build [ncr_city]) ! 0) = CityMunicipality
   \<and> property (g_nodes (build [ncr_city]) ! 0) ''region_code'' = lit ''13''
   \<and> g_edges (build [ncr_city]) = []
   \<and> hierarchy_query (build [ncr_city]) ''1303901000'' = []"
  by code_simp

lemma distinct_map_nth_eq:
  assumes "distinct (map f xs)" "i < length xs" "j < length xs" "f (xs ! i) = f (xs ! j)"
  shows "i = j"
proof -
  have "map f xs ! i = map f xs ! j" using assms by simp
  with assms show ?thesis by (simp add: nth_eq_iff_index_eq del: nth_map)
qed

lemma hierarchy_paths_none:
  assumes "match_psgc_code (g_nodes g) code = [t]"
    and "\<And>r. r < length (g_nodes g) \<Longrightarrow> n_label (g_nodes g ! r) = Region
            \<Longrightarrow> shortestPath (g_edges g) r t = None"
  shows "hierarchy_paths g code = []"
  using hierarchy_paths_single [OF assms(1), of "length (g_nodes g)"] assms(2) by simp

text \<open>Two Regions with a path to the same node are one when region segments are unique.\<close>

lemma reaching_region_unique:
  assumes ok: "\<forall>e \<in> set es. edge_ok ns e"
    and d: "distinct (map (\<lambda>r. property (ns ! r) ''region_code'') (match_label ns Region))"
    and r: "r < length ns" "n_label (ns ! r) = Region" "p \<in> set (walks es k r t)"
    and r': "r' < length ns" "n_label (ns ! r') = Region" "p' \<in> set (walks es k' r' t)"
  shows "r = r'"
proof (cases k)
  case 0
  with r(3) have rt: "r = t" by (simp split: if_splits)
  show ?thesis
  proof (cases k')
    case 0
    with r'(3) rt show ?thesis by (simp split: if_splits)
  next
    case (Suc j)
    from walks_rank_lt [OF ok r'(3) [unfolded Suc]] rt r(2) show ?thesis
      by (simp add: sortOrder_def)
  qed
next
  case (Suc i)
  note k = this
  show ?thesis
  proof (cases k')
    case 0
    with r'(3) have "r' = t" by (simp split: if_splits)
    with walks_rank_lt [OF ok r(3) [unfolded k]] r'(2) show ?thesis
      by (simp add: sortOrder_def)
  next
    case (Suc j)
    have "cy_eq (property (ns ! r) ''region_code'') (property (ns ! r') ''region_code'')"
      using walks_region_code [OF ok r(3) [unfolded k]]
            walks_region_code [OF ok r'(3) [unfolded Suc]]
      by (blast intro: cy_eq_trans cy_eq_sym)
    then have eq: "property (ns ! r) ''region_code'' = property (ns ! r') ''region_code''"
      by (rule cy_eq_imp_eq)
    have mem: "r \<in> set (match_label ns Region)" "r' \<in> set (match_label ns Region)"
      using r(1,2) r'(1,2) by (simp_all add: match_label_iff)
    from d have "inj_on (\<lambda>r. property (ns ! r) ''region_code'') (set (match_label ns Region))"
      by (simp add: distinct_map)
    from inj_onD [OF this eq mem] show ?thesis .
  qed
qed

lemma walk_rows:
  assumes ok: "\<forall>e \<in> set es. edge_ok ns e"
    and p: "p \<in> set (walks es k r t)" and t: "t < length ns"
  shows "p \<noteq> []" "hd p = r" "last p = t"
    "sorted_wrt (<) (map (\<lambda>i. sortOrder (n_label (ns ! i))) p)"
    "distinct p" "\<forall>i \<in> set p. i < length ns"
proof -
  from walks_shape [OF p] show "p \<noteq> []" "hd p = r" "last p = t" by auto
  from walks_ranked [OF ok p]
  show s: "sorted_wrt (<) (map (\<lambda>i. sortOrder (n_label (ns ! i))) p)" by simp
  then have "distinct (map (\<lambda>i. sortOrder (n_label (ns ! i))) p)"
    by (simp add: strict_sorted_iff)
  then show "distinct p" by (simp add: distinct_map)
  show "\<forall>i \<in> set p. i < length ns"
  proof (cases k)
    case 0
    with p t show ?thesis by (simp split: if_splits)
  next
    case (Suc k')
    with walks_ranked [OF ok p] show ?thesis by simp
  qed
qed


text \<open>
  C1 (amended). In a freshly built graph whose entities carry pairwise distinct codes and
  whose Regions carry pairwise distinct region segments, resolving the code of an entity
  \<open>E\<close> yields no row exactly when no Region reaches \<open>E\<close> within four edges (the handler
  then answers not found); otherwise it yields a sequence that ends in \<open>E\<close>, starts in a
  Region, has strictly increasing rank and repeats no code.
\<close>

theorem resolver_correct:
  fixes data :: "PSGCData list"
  defines "g \<equiv> build data"
  assumes codes: "distinct (map (\<lambda>n. property n ''psgc_code'') (g_nodes g))"
    and regions: "distinct (map (\<lambda>r. property (g_nodes g ! r) ''region_code'')
                     (match_label (g_nodes g) Region))"
    and t: "t < length (g_nodes g)"
    and code: "property (g_nodes g ! t) ''psgc_code'' = lit code"
  shows "(hierarchy_query g code = [])
           = (\<forall>r \<in> set (match_label (g_nodes g) Region). \<forall>k<5. walks (g_edges g) k r t = [])
         \<and> (hierarchy_query g code = []
             \<or> last (hierarchy_query g code) = row_of (g_nodes g ! t)
               \<and> h_type (hd (hierarchy_query g code)) = Region
               \<and> sorted_wrt (<) (map row_rank (hierarchy_query g code))
               \<and> distinct (map h_psgc_code (hierarchy_query g code)))"
proof -
  let ?ns = "g_nodes g" and ?es = "g_edges g"
  let ?row = "\<lambda>i. row_of (?ns ! i)"
  have ok: "\<forall>e \<in> set ?es. edge_ok ?ns e"
    unfolding g_def by (rule build_edges_ok)
  have target: "match_psgc_code ?ns code = [t]"
  proof (rule match_psgc_code_unique [OF t code])
    fix i assume "i < length ?ns" "property (?ns ! i) ''psgc_code'' = lit code"
    with codes t code show "i = t"
      by (intro distinct_map_nth_eq [of "\<lambda>n. property n ''psgc_code''" ?ns]) simp_all
  qed
  show ?thesis
  proof (cases "\<forall>r \<in> set (match_label ?ns Region). \<forall>k<5. walks ?es k r t = []")
    case True
    have "hierarchy_paths g code = []"
    proof (rule hierarchy_paths_none [OF target])
      fix r assume "r < length ?ns" "n_label (?ns ! r) = Region"
      with True have "\<And>k. k < 5 \<Longrightarrow> walks ?es k r t = []"
        by (simp add: match_label_iff)
      then show "shortestPath ?es r t = None" by (rule shortestPath_None)
    qed
    then have "hierarchy_query g code = []" by (simp add: hierarchy_query_def)
    with True show ?thesis by simp
  next
    case False
    then obtain r0 k0 where r0: "r0 < length ?ns" "n_label (?ns ! r0) = Region"
        and k0: "k0 < 5" "walks ?es k0 r0 t \<noteq> []"
      by (auto simp: match_label_iff)
    then obtain q where q: "q \<in> set (walks ?es k0 r0 t)"
      by (cases "walks ?es k0 r0 t") auto
    have some: "shortestPath ?es r0 t \<noteq> None"
    proof
      assume "shortestPath ?es r0 t = None"
      then have "concat (map (\<lambda>k. walks ?es k r0 t) [0..<5]) = []"
        by (simp add: shortestPath_def split: list.splits)
      with k0 show False by auto
    qed
    then obtain p where p: "shortestPath ?es r0 t = Some p" by auto
    then obtain k where k: "k < 5" "p \<in> set (walks ?es k r0 t)"
      using shortestPath_Some by blast
    have others: "shortestPath ?es r' t = None"
      if r': "r' < length ?ns" "n_label (?ns ! r') = Region" "r' \<noteq> r0" for r'
    proof (rule ccontr)
      assume "shortestPath ?es r' t \<noteq> None"
      then obtain p' where "shortestPath ?es r' t = Some p'" by auto
      then obtain k' where "p' \<in> set (walks ?es k' r' t)"
        using shortestPath_Some by blast
      from reaching_region_unique [OF ok regions r'(1,2) this r0 k(2)] r'(3)
      show False by simp
    qed
    have paths: "hierarchy_paths g code = [p]"
      using hierarchy_paths_single [OF target others, of r0] r0 p by simp
    note w = walk_rows [OF ok k(2) t]
    have rows: "hierarchy_query g code = map ?row p"
      using paths w(4) by (rule hierarchy_query_single)
    have ne: "hierarchy_query g code \<noteq> []" using rows w(1) by simp
    have l: "last (hierarchy_query g code) = row_of (?ns ! t)"
      using w(1,3) by (simp add: rows last_map)
    have h: "h_type (hd (hierarchy_query g code)) = Region"
      using w(1,2) r0(2) by (simp add: rows hd_map row_of_def)
    have s: "sorted_wrt (<) (map row_rank (hierarchy_query g code))"
      using w(4) by (simp add: rows comp_def row_rank_def row_of_def)
    have "distinct (map (\<lambda>i. property (?ns ! i) ''psgc_code'') p)"
      unfolding distinct_map
    proof
      show "distinct p" by (rule w(5))
      show "inj_on (\<lambda>i. property (?ns ! i) ''psgc_code'') (set p)"
      proof (rule inj_onI)
        fix i j assume "i \<in> set p" "j \<in> set p"
          "property (?ns ! i) ''psgc_code'' = property (?ns ! j) ''psgc_code''"
        with w(6) codes show "i = j"
          by (intro distinct_map_nth_eq [of "\<lambda>n. property n ''psgc_code''" ?ns]) simp_all
      qed
    qed
    then have d: "distinct (map h_psgc_code (hierarchy_query g code))"
      by (simp add: rows comp_def row_of_def)
    from False ne l h s d show ?thesis by simp
  qed
qed


theorem resolver_correct_witness:
  "hierarchy_query (build [region3, bulacan, angat, laog]) ''0301401007'' \<noteq> []
   \<and> last (hierarchy_query (build [region3, bulacan, angat, laog]) ''0301401007'')
       = row_of (node_of Barangay laog)
   \<and> h_type (hd (hierarchy_query (build [region3, bulacan, angat, laog]) ''0301401007'')) = Region
   \<and> sorted_wrt (<) (map row_rank (hierarchy_query (build [region3, bulacan, angat, laog]) ''0301401007''))
   \<and> distinct (map h_psgc_code (hierarchy_query (build [region3, bulacan, angat, laog]) ''0301401007''))"
proof -
  let ?g = "build [region3, bulacan, angat, laog]"
  have a: "distinct (map (\<lambda>n. property n ''psgc_code'') (g_nodes ?g))" by code_simp
  have b: "distinct (map (\<lambda>r. property (g_nodes ?g ! r) ''region_code'') (match_label (g_nodes ?g) Region))"
    by code_simp
  have c: "3 < length (g_nodes ?g)" by code_simp
  have d: "property (g_nodes ?g ! 3) ''psgc_code'' = lit ''0301401007''" by code_simp
  have e: "hierarchy_query ?g ''0301401007'' \<noteq> []" by code_simp
  have f: "g_nodes ?g ! 3 = node_of Barangay laog" by code_simp
  from resolver_correct [OF a b c d] e f show ?thesis by simp
qed

theorem resolver_orphan_counterexample:
  "property (g_nodes (build [laog]) ! 0) ''psgc_code'' = lit ''0301401007''
   \<and> length (g_nodes (build [laog])) = 1
   \<and> hierarchy_query (build [laog]) ''0301401007'' = []
   \<and> hierarchy_GET (Some (build [laog])) ''0301401007'' = Response 404 (ErrorBody ''Location not found'')
   \<and> map h_psgc_code (hierarchy_query (build [region3, region3]) ''0300000000'')
       = [Some (JStr ''0300000000''), Some (JStr ''0300000000'')]"
  by code_simp

text \<open>
  C7. When no entity carries the code, or no Region has a path of at most four edges to
  an entity that carries it, the handler answers 404 "Location not found". That response
  differs from the 500 "Failed to fetch hierarchy" it gives when the query throws; and
  whatever the store and the code, the handler returns one of these two or a 200 whose
  hierarchy is the non-empty result of the query.
\<close>

theorem hierarchy_not_found:
  assumes "match_psgc_code (g_nodes g) code = []
           \<or> (\<forall>t \<in> set (match_psgc_code (g_nodes g) code).
                \<forall>r \<in> set (match_label (g_nodes g) Region). \<forall>k<5. walks (g_edges g) k r t = [])"
  shows "hierarchy_GET (Some g) code = Response 404 (ErrorBody ''Location not found'')
         \<and> hierarchy_GET None code = Response 500 (ErrorBody ''Failed to fetch hierarchy'')
         \<and> hierarchy_GET (Some g) code \<noteq> hierarchy_GET None code
         \<and> (hierarchy_GET store code = Response 404 (ErrorBody ''Location not found'')
             \<or> hierarchy_GET store code = Response 500 (ErrorBody ''Failed to fetch hierarchy'')
             \<or> (\<exists>h rows. store = Some h \<and> rows = hierarchy_query h code \<and> rows \<noteq> []
                   \<and> hierarchy_GET store code = Response 200 (HierarchyBody code rows)))"
proof -
  have none: "shortestPath (g_edges g) r t = None"
    if "t \<in> set (match_psgc_code (g_nodes g) code)" "r \<in> set (match_label (g_nodes g) Region)"
    for r t
  proof (rule shortestPath_None)
    fix k :: nat assume "k < 5"
    with assms that show "walks (g_edges g) k r t = []" by auto
  qed
  have "hierarchy_paths g code = []"
    unfolding hierarchy_paths_def concat_eq_Nil_conv
    by (auto simp: none)
  then have "hierarchy_query g code = []"
    by (simp add: hierarchy_query_def)
  then have nf: "hierarchy_GET (Some g) code = Response 404 (ErrorBody ''Location not found'')"
    by (simp add: hierarchy_GET_def)
  have err: "hierarchy_GET None code = Response 500 (ErrorBody ''Failed to fetch hierarchy'')"
    by (simp add: hierarchy_GET_def)
  have total: "hierarchy_GET store code = Response 404 (ErrorBody ''Location not found'')
             \<or> hierarchy_GET store code = Response 500 (ErrorBody ''Failed to fetch hierarchy'')
             \<or> (\<exists>h rows. store = Some h \<and> rows = hierarchy_query h code \<and> rows \<noteq> []
                   \<and> hierarchy_GET store code = Response 200 (HierarchyBody code rows))"
    by (cases store) (simp_all add: hierarchy_GET_def Let_def)
  from nf err total show ?thesis by simp
qed

theorem hierarchy_not_found_witness:
  "hierarchy_GET (Some (build [region3, bulacan, angat, laog])) ''9999999999''
     = Response 404 (ErrorBody ''Location not found'')
   \<and> hierarchy_GET (Some (build [laog])) ''0301401007''
     = Response 404 (ErrorBody ''Location not found'')"
proof -
  have a: "match_psgc_code (g_nodes (build [region3, bulacan, angat, laog])) ''9999999999'' = []"
    by code_simp
  have b: "match_label (g_nodes (build [laog])) Region = []"
    by code_simp
  from hierarchy_not_found [of "build [region3, bulacan, angat, laog]" "''9999999999''"] a
       hierarchy_not_found [of "build [laog]" "''0301401007''"] b
  show ?thesis by simp
qed

section \<open>Parent edges\<close>

lemma filter_eq_distinct:
  "distinct ys \<Longrightarrow> filter (\<lambda>b. Q b \<and> b = j) ys = (if j \<in> set ys \<and> Q j then [j] else [])"
  by (induction ys) auto

lemma into_matched_pairs:
  "filter (\<lambda>e. snd (snd e) = j) (matched_pairs ns La Lb w T)
     = map (\<lambda>a. (a, T, j))
         (filter (\<lambda>a. n_label (ns ! a) = La \<and> j < length ns \<and> n_label (ns ! j) = Lb \<and> w (ns ! a) (ns ! j))
            [0..<length ns])"
proof -
  have one: "filter (\<lambda>e. snd (snd e) = j)
               (map (\<lambda>b. (a, T, b)) (filter (\<lambda>b. w (ns ! a) (ns ! b)) (match_label ns Lb)))
             = (if j < length ns \<and> n_label (ns ! j) = Lb \<and> w (ns ! a) (ns ! j) then [(a, T, j)] else [])"
    for a
    by (simp add: filter_map comp_def filter_eq_distinct [OF distinct_match_label] match_label_iff)
  have "filter (\<lambda>e. snd (snd e) = j)
          (concat (map (\<lambda>a. map (\<lambda>b. (a, T, b)) (filter (\<lambda>b. w (ns ! a) (ns ! b)) (match_label ns Lb))) xs))
        = map (\<lambda>a. (a, T, j))
            (filter (\<lambda>a. j < length ns \<and> n_label (ns ! j) = Lb \<and> w (ns ! a) (ns ! j)) xs)"
    for xs
    by (induction xs) (simp_all add: one)
  then show ?thesis
    by (simp add: matched_pairs_def match_label_def conj_commute conj_left_commute)
qed

lemma mset_filter_or:
  "(\<And>x. \<not> (P x \<and> Q x)) \<Longrightarrow>
   mset (filter P xs) + mset (filter Q xs) = mset (filter (\<lambda>x. P x \<or> Q x) xs)"
  by (induction xs) auto

lemma parents_of_new_edges:
  assumes "j < length ns"
  shows "mset (map fst (filter (\<lambda>e. snd (snd e) = j) (new_edges ns))) = mset (parents_by_rule ns j)"
proof -
  let ?P1 = "\<lambda>a. n_label (ns ! a) = Region \<and> j < length ns \<and> n_label (ns ! j) = Province
               \<and> where_region_province (ns ! a) (ns ! j)"
  let ?P2 = "\<lambda>a. n_label (ns ! a) = Province \<and> j < length ns \<and> n_label (ns ! j) = CityMunicipality
               \<and> where_province_city (ns ! a) (ns ! j)"
  let ?P3 = "\<lambda>a. n_label (ns ! a) = CityMunicipality \<and> j < length ns \<and> n_label (ns ! j) = Barangay
               \<and> where_city_barangay (ns ! a) (ns ! j)"
  let ?P4 = "\<lambda>a. n_label (ns ! a) = CityMunicipality \<and> j < length ns \<and> n_label (ns ! j) = SubMunicipality
               \<and> where_city_submun (ns ! a) (ns ! j)"
  let ?P5 = "\<lambda>a. n_label (ns ! a) = Region \<and> j < length ns \<and> n_label (ns ! j) = CityMunicipality
               \<and> where_ncr (ns ! a) (ns ! j)"
  let ?xs = "[0..<length ns]"
  have "mset (map fst (filter (\<lambda>e. snd (snd e) = j) (new_edges ns)))
          = mset (filter ?P1 ?xs) + mset (filter ?P2 ?xs) + mset (filter ?P3 ?xs)
            + mset (filter ?P4 ?xs) + mset (filter ?P5 ?xs)"
    by (simp add: new_edges_def into_matched_pairs comp_def)
  also have "mset (filter ?P1 ?xs) + mset (filter ?P2 ?xs) = mset (filter (\<lambda>a. ?P1 a \<or> ?P2 a) ?xs)"
    by (rule mset_filter_or) auto
  also have "mset (filter (\<lambda>a. ?P1 a \<or> ?P2 a) ?xs) + mset (filter ?P3 ?xs)
          = mset (filter (\<lambda>a. (?P1 a \<or> ?P2 a) \<or> ?P3 a) ?xs)"
    by (rule mset_filter_or) auto
  also have "mset (filter (\<lambda>a. (?P1 a \<or> ?P2 a) \<or> ?P3 a) ?xs) + mset (filter ?P4 ?xs)
          = mset (filter (\<lambda>a. ((?P1 a \<or> ?P2 a) \<or> ?P3 a) \<or> ?P4 a) ?xs)"
    by (rule mset_filter_or) auto
  also have "mset (filter (\<lambda>a. ((?P1 a \<or> ?P2 a) \<or> ?P3 a) \<or> ?P4 a) ?xs) + mset (filter ?P5 ?xs)
          = mset (filter (\<lambda>a. (((?P1 a \<or> ?P2 a) \<or> ?P3 a) \<or> ?P4 a) \<or> ?P5 a) ?xs)"
    by (rule mset_filter_or) auto
  also have "filter (\<lambda>a. (((?P1 a \<or> ?P2 a) \<or> ?P3 a) \<or> ?P4 a) \<or> ?P5 a) ?xs = parents_by_rule ns j"
    unfolding parents_by_rule_def parent_rule_def using assms
    by (intro filter_cong refl) auto
  finally show ?thesis .
qed


lemma no_edge_into_region:
  assumes "n_label (ns ! j) = Region"
  shows "filter (\<lambda>e. snd (snd e) = j) (new_edges ns) = []"
proof -
  have "snd (snd e) \<noteq> j" if "e \<in> set (new_edges ns)" for e
    using new_edges_ok [OF that] assms by (auto simp: edge_ok_def sortOrder_def)
  then show ?thesis by (auto simp: filter_empty_conv)
qed

text \<open>
  C2 (amended). In a graph built by one run of relationship building, the parents of an
  entity are exactly the entities that match it under the five rules, each once: so an
  entity with exactly one matching entity has exactly one incoming parent edge, and a
  Region has none. The NCR pass attaches every CityMunicipality of region segment "13" to
  the Region of segment "13" without looking for a Province parent.
\<close>

theorem tree_invariant:
  fixes ns :: "node list"
  defines "g \<equiv> createRelationships \<lparr>g_nodes = ns, g_edges = []\<rparr>"
  assumes j: "j < length ns"
  shows "mset (map fst (in_edges g j)) = mset (parents_by_rule ns j)
         \<and> (parents_by_rule ns j = [i] \<longrightarrow> (\<exists>T. in_edges g j = [(i, T, j)]))
         \<and> (n_label (ns ! j) = Region \<longrightarrow> in_edges g j = [])"
proof -
  have e: "in_edges g j = filter (\<lambda>e. snd (snd e) = j) (new_edges ns)"
    by (simp add: in_edges_def g_def createRelationships_edges)
  have m: "mset (map fst (in_edges g j)) = mset (parents_by_rule ns j)"
    unfolding e using j by (rule parents_of_new_edges)
  have one: "\<exists>T. in_edges g j = [(i, T, j)]" if "parents_by_rule ns j = [i]"
  proof -
    from m that have "mset (map fst (in_edges g j)) = {#i#}" by (simp del: mset_map)
    then have "map fst (in_edges g j) = [i]" by (simp only: mset_single_iff)
    then obtain x where x: "in_edges g j = [x]" "fst x = i" by auto
    then have "x \<in> set (in_edges g j)" by simp
    then have "snd (snd x) = j" by (simp add: in_edges_def)
    with x show ?thesis by (cases x) auto
  qed
  have r: "in_edges g j = []" if "n_label (ns ! j) = Region"
    unfolding e using that by (rule no_edge_into_region)
  from m one r show ?thesis by blast
qed

theorem tree_invariant_witness:
  "in_edges (build [region3, bulacan, angat, laog]) 3 = [(2, HAS_BARANGAY, 3)]
   \<and> in_edges (build [region3, bulacan, angat, laog]) 0 = []"
proof -
  let ?ns = "entity_nodes [region3, bulacan, angat, laog]"
  have a: "3 < length ?ns" by code_simp
  have a0: "0 < length ?ns" by code_simp
  have b: "parents_by_rule ?ns 3 = [2]" by code_simp
  have c: "n_label (?ns ! 0) = Region" by code_simp
  from tree_invariant [OF a, of 2] b obtain T
    where T: "in_edges (build [region3, bulacan, angat, laog]) 3 = [(2, T, 3)]"
    by (auto simp: build_eq)
  have "(2, HAS_BARANGAY, 3) \<in> set (g_edges (build [region3, bulacan, angat, laog]))"
    by code_simp
  then have "(2, HAS_BARANGAY, 3) \<in> set (in_edges (build [region3, bulacan, angat, laog]) 3)"
    by (simp add: in_edges_def)
  with T have "T = HAS_BARANGAY" by simp
  with T tree_invariant [OF a0, of 0] c show ?thesis by (simp add: build_eq)
qed

theorem ncr_second_parent_counterexample:
  "n_label (g_nodes (build [ncr, ncr_province, ncr_city]) ! 2) = CityMunicipality
   \<and> n_label (g_nodes (build [ncr, ncr_province, ncr_city]) ! 1) = Province
   \<and> n_label (g_nodes (build [ncr, ncr_province, ncr_city]) ! 0) = Region
   \<and> in_edges (run_passes [RegionProvince, ProvinceCity, CityBarangay, CitySubMun]
        \<lparr>g_nodes = entity_nodes [ncr, ncr_province, ncr_city], g_edges = []\<rparr>) 2
       = [(1, HAS_CITY_MUNICIPALITY, 2)]
   \<and> in_edges (build [ncr, ncr_province, ncr_city]) 2
       = [(1, HAS_CITY_MUNICIPALITY, 2), (0, HAS_CITY_MUNICIPALITY, 2)]
   \<and> in_edges (build [laog]) 0 = []"
  by code_simp

section \<open>The console of a run\<close>




section \<open>One record within a batch\<close>


lemma classify_iff: "K \<in> set (classify d) \<longleftrightarrow> accepts K d"
  by (cases K) (simp_all add: classify_def kinds_def)

lemma entity_nodes_insert:
  "mset (entity_nodes (xs @ d # ys))
     = mset (entity_nodes (xs @ ys)) + mset (map (\<lambda>K. node_of K d) (classify d))"
  by (simp add: entity_nodes_def kinds_def classify_def)











text \<open>
  C5 (amended). Classification tests a record against the five filters independently: the
  record is imported under every kind whose filter accepts it, which may be none, one or
  several kinds, so the kinds are not mutually exclusive, and it has exactly one kind only
  when exactly one filter accepts it. The kinds and the node (label and attribute set)
  under each kind depend on the record alone: within any batch, at any position, the
  record contributes exactly the nodes \<open>node_of K d\<close> for the kinds \<open>K\<close> of \<open>classify d\<close>.
\<close>

theorem classification_by_filters:
  "(K \<in> set (classify d)) = accepts K d
   \<and> distinct (classify d)
   \<and> n_label (node_of K d) = K
   \<and> mset (g_nodes (build (xs @ d # ys)))
       = mset (g_nodes (build (xs @ ys))) + mset (map (\<lambda>K. node_of K d) (classify d))
   \<and> n_props (node_of Region d) = filtered regionProps (obj_of d)
   \<and> n_props (node_of Province d) = filtered provinceProps (obj_of d)
   \<and> n_props (node_of CityMunicipality d) = filtered cityProps (with_type d)
   \<and> n_props (node_of Barangay d) = filtered barangayProps (obj_of d)
   \<and> n_props (node_of SubMunicipality d) = filtered barangayProps (obj_of d)"
proof -
  have "n_label (node_of K d) = K"
    by (cases K) (simp_all add: new_node_def)
  moreover have "distinct (classify d)"
    by (simp add: classify_def kinds_def)
  ultimately show ?thesis
    by (simp add: classify_iff build_nodes entity_nodes_insert new_node_def)
qed

theorem classification_by_filters_example:
  "classify angat = [CityMunicipality]
   \<and> mset (g_nodes (build [region3, angat, laog]))
       = mset (g_nodes (build [region3, laog])) + {#node_of CityMunicipality angat#}"
proof -
  have a: "classify angat = [CityMunicipality]" by code_simp
  from classification_by_filters [of CityMunicipality angat "[region3]" "[laog]"] a
  show ?thesis by simp
qed

theorem classification_not_exclusive_counterexample:
  "well_formed_segments ncr_district \<and> classify ncr_district = []
   \<and> g_nodes (build [ncr_district]) = []
   \<and> well_formed_segments untagged_submun
   \<and> classify untagged_submun = [CityMunicipality, SubMunicipality]
   \<and> map n_label (g_nodes (build [untagged_submun])) = [CityMunicipality, SubMunicipality]"
  by code_simp






end
